theory Spec2Isabelle
  imports Main
begin

section \<open>The connection handler of \<open>app.py\<close>\<close>

text \<open>
  The whole program is one coroutine:
  \<^verbatim>\<open>
  @app.websocket("/")
  async def root(ws: WebSocket):
      await ws.accept()
      while True:
          await ws.send_text("Hello!")
          print("Hello!")
          received = await ws.receive_text()
          print(received)
  \<close>
  It has no \<open>try\<close>, no \<open>break\<close> and no \<open>return\<close>: an exception raised by one of its calls
  leaves \<open>root\<close> at once, and nothing else ends the loop.
\<close>

subsection \<open>The surroundings, as the handler sees them\<close>

text \<open>
  The \<open>WebSocket\<close> object belongs to the web framework, not to this repository. The handler
  awaits three of its methods, calls \<open>print\<close>, and handles no exception of any of them.
\<close>

text \<open>
  Modelled from the spec: the exceptions the three methods of \<open>WebSocket\<close> raise. The class
  and its exception types are the framework's and are not among the sources; the specification
  names \<open>HandshakeError\<close> for \<open>accept\<close>, and \<open>ConnectionClosed\<close> and \<open>TransportError\<close> for
  \<open>send_text\<close> and \<open>receive_text\<close>. \<open>OutputError\<close> is not the specification's: it stands for
  what \<open>print\<close> raises (\<open>UnicodeEncodeError\<close> when standard output cannot encode the text,
  \<open>OSError\<close> when it cannot be written to). The handler never inspects an exception, so
  nothing below depends on which of them a call raises.
\<close>

datatype exn = HandshakeError | ConnectionClosed | TransportError | OutputError

text \<open>
  A call returns a value, raises, or never completes (an \<open>await\<close> that never resumes the
  coroutine, a write that blocks for ever).
\<close>

datatype 'a outcome = Returns (result: 'a) | Raises exn | Never_completes

text \<open>
  A \<open>websocket\<close> fixes what the transport and the peer do in one session: the outcome of
  \<open>accept()\<close>, of the \<open>k\<close>-th call \<open>send_text(s)\<close> and of the \<open>k\<close>-th call \<open>receive_text()\<close>
  (counting from 0).
\<close>

record websocket =
  accept :: "unit outcome"
  send_text :: "nat \<Rightarrow> string \<Rightarrow> unit outcome"
  receive_text :: "nat \<Rightarrow> string outcome"

text \<open>
  A \<open>console\<close> fixes what standard output does: the outcome of the handler's \<open>j\<close>-th call of
  \<open>print\<close>, given the text it is called with (counting from 0). In iteration \<open>k\<close> of the loop,
  \<open>print("Hello!")\<close> is call \<open>2 * k\<close> and \<open>print(received)\<close> is call \<open>2 * k + 1\<close>.
\<close>

type_synonym console = "nat \<Rightarrow> string \<Rightarrow> unit outcome"

subsection \<open>Observable events\<close>

text \<open>
  Everything \<open>root\<close> does is a call on \<open>ws\<close> or a \<open>print\<close>. Each call is recorded with what
  it was given and with its outcome. \<open>Print_sent\<close> is the statement \<open>print("Hello!")\<close>,
  \<open>Print_received\<close> the statement \<open>print(received)\<close>.
\<close>

datatype event =
    Accept "unit outcome"
  | Send_text string "unit outcome"
  | Print_sent string "unit outcome"
  | Receive_text "string outcome"
  | Print_received string "unit outcome"

text \<open>
  How an observation of the coroutine ends. \<open>Returned\<close> is the coroutine reaching the end
  of its body, \<open>Raised e\<close> an exception leaving it. \<open>Suspended\<close> is a call that never
  completes. \<open>Still_running\<close> is the observer giving up after the number of loop iterations
  it was willing to watch.
\<close>

datatype status = Returned | Raised exn | Suspended | Still_running

subsection \<open>The handler\<close>

text \<open>
  One statement that calls out, followed by the rest of the program: the call is recorded;
  if it returns, the program goes on with the value returned; if it raises, the exception
  leaves the handler; if it never completes, the handler stays there.
\<close>

fun call ::
  "'a outcome \<Rightarrow> ('a outcome \<Rightarrow> event) \<Rightarrow> ('a \<Rightarrow> event list \<times> status)
   \<Rightarrow> event list \<times> status" where
  "call (Returns x) ev rest = (case rest x of (evs, st) \<Rightarrow> (ev (Returns x) # evs, st))"
| "call (Raises e) ev rest = ([ev (Raises e)], Raised e)"
| "call Never_completes ev rest = ([ev Never_completes], Suspended)"

text \<open>
  \<open>loop ws out n k\<close> is the \<open>while True\<close> loop from its \<open>k\<close>-th iteration on, watched for at
  most \<open>n\<close> iterations: the events it produces and how it ends. The four calls are the four
  statements of the loop body, in program order.
\<close>

fun loop :: "websocket \<Rightarrow> console \<Rightarrow> nat \<Rightarrow> nat \<Rightarrow> event list \<times> status" where
  "loop ws out 0 k = ([], Still_running)"
| "loop ws out (Suc n) k =
     call (send_text ws k ''Hello!'') (Send_text ''Hello!'') (\<lambda>_.
     call (out (2 * k) ''Hello!'') (Print_sent ''Hello!'') (\<lambda>_.
     call (receive_text ws k) Receive_text (\<lambda>received.
     call (out (2 * k + 1) received) (Print_received received) (\<lambda>_.
     loop ws out n (Suc k)))))"

definition root :: "websocket \<Rightarrow> console \<Rightarrow> nat \<Rightarrow> event list \<times> status" where
  "root ws out n = call (accept ws) Accept (\<lambda>_. loop ws out n 0)"

subsection \<open>Reading a trace\<close>

text \<open>
  What was written to standard output: one entry for each \<open>print\<close> that returned, the
  text it was given (which may itself hold line breaks). A \<open>print\<close> that did not return is
  taken to have written nothing; \<open>lost\<close> lists the texts of those.
\<close>

fun stdout :: "event list \<Rightarrow> string list" where
  "stdout [] = []"
| "stdout (Print_sent s (Returns u) # evs) = s # stdout evs"
| "stdout (Print_received s (Returns u) # evs) = s # stdout evs"
| "stdout (_ # evs) = stdout evs"

fun lost :: "event list \<Rightarrow> string list" where
  "lost [] = []"
| "lost (Print_sent s (Returns u) # evs) = lost evs"
| "lost (Print_received s (Returns u) # evs) = lost evs"
| "lost (Print_sent s oc # evs) = s # lost evs"
| "lost (Print_received s oc # evs) = s # lost evs"
| "lost (_ # evs) = lost evs"

text \<open>
  The calls on \<open>ws\<close>, the calls of \<open>print\<close>, and the calls of \<open>print\<close> that returned, each in
  the order they occur, as directions.
\<close>

datatype direction = Sent | Received

fun wire_ops :: "event list \<Rightarrow> direction list" where
  "wire_ops [] = []"
| "wire_ops (Send_text s oc # evs) = Sent # wire_ops evs"
| "wire_ops (Receive_text oc # evs) = Received # wire_ops evs"
| "wire_ops (_ # evs) = wire_ops evs"

fun log_kinds :: "event list \<Rightarrow> direction list" where
  "log_kinds [] = []"
| "log_kinds (Print_sent s oc # evs) = Sent # log_kinds evs"
| "log_kinds (Print_received s oc # evs) = Received # log_kinds evs"
| "log_kinds (_ # evs) = log_kinds evs"

fun written_kinds :: "event list \<Rightarrow> direction list" where
  "written_kinds [] = []"
| "written_kinds (Print_sent s (Returns u) # evs) = Sent # written_kinds evs"
| "written_kinds (Print_received s (Returns u) # evs) = Received # written_kinds evs"
| "written_kinds (_ # evs) = written_kinds evs"

fun flip :: "direction \<Rightarrow> direction" where
  "flip Sent = Received"
| "flip Received = Sent"

fun alternates :: "direction \<Rightarrow> direction list \<Rightarrow> bool" where
  "alternates d [] = True"
| "alternates d (x # xs) = (x = d \<and> alternates (flip d) xs)"

text \<open>
  The four statements of the loop body, in program order. \<open>in_cycle p evs\<close> says that \<open>evs\<close>
  walks through them in that order, starting at \<open>p\<close> and wrapping around.
\<close>

datatype stage = At_send | At_print_sent | At_receive | At_print_received

fun stage_of :: "event \<Rightarrow> stage option" where
  "stage_of (Accept oc) = None"
| "stage_of (Send_text s oc) = Some At_send"
| "stage_of (Print_sent s oc) = Some At_print_sent"
| "stage_of (Receive_text oc) = Some At_receive"
| "stage_of (Print_received s oc) = Some At_print_received"

fun next_stage :: "stage \<Rightarrow> stage" where
  "next_stage At_send = At_print_sent"
| "next_stage At_print_sent = At_receive"
| "next_stage At_receive = At_print_received"
| "next_stage At_print_received = At_send"

fun in_cycle :: "stage \<Rightarrow> event list \<Rightarrow> bool" where
  "in_cycle p [] = True"
| "in_cycle p (ev # evs) = (stage_of ev = Some p \<and> in_cycle (next_stage p) evs)"

text \<open>What was passed to \<open>send_text\<close>, and to each of the two \<open>print\<close> statements.\<close>

fun sent_payloads :: "event list \<Rightarrow> string list" where
  "sent_payloads [] = []"
| "sent_payloads (Send_text s oc # evs) = s # sent_payloads evs"
| "sent_payloads (_ # evs) = sent_payloads evs"

fun sent_logs :: "event list \<Rightarrow> string list" where
  "sent_logs [] = []"
| "sent_logs (Print_sent s oc # evs) = s # sent_logs evs"
| "sent_logs (_ # evs) = sent_logs evs"

fun received_logs :: "event list \<Rightarrow> string list" where
  "received_logs [] = []"
| "received_logs (Print_received s oc # evs) = s # received_logs evs"
| "received_logs (_ # evs) = received_logs evs"

text \<open>
  The messages of the calls that returned: those \<open>send_text\<close> accepted, those
  \<open>receive_text\<close> handed over, and both in the order of the calls.
\<close>

fun ok_sends :: "event list \<Rightarrow> string list" where
  "ok_sends [] = []"
| "ok_sends (Send_text s (Returns u) # evs) = s # ok_sends evs"
| "ok_sends (_ # evs) = ok_sends evs"

fun delivered :: "event list \<Rightarrow> string list" where
  "delivered [] = []"
| "delivered (Receive_text (Returns s) # evs) = s # delivered evs"
| "delivered (_ # evs) = delivered evs"

fun expected_log :: "event list \<Rightarrow> string list" where
  "expected_log [] = []"
| "expected_log (Send_text s (Returns u) # evs) = s # expected_log evs"
| "expected_log (Receive_text (Returns s) # evs) = s # expected_log evs"
| "expected_log (_ # evs) = expected_log evs"

text \<open>
  A call that raised, the exception it raised, and the events that follow the first
  such call.
\<close>

fun error_of :: "event \<Rightarrow> exn option" where
  "error_of (Accept (Raises e)) = Some e"
| "error_of (Send_text s (Raises e)) = Some e"
| "error_of (Print_sent s (Raises e)) = Some e"
| "error_of (Receive_text (Raises e)) = Some e"
| "error_of (Print_received s (Raises e)) = Some e"
| "error_of _ = None"

definition failed :: "event \<Rightarrow> bool" where
  "failed ev \<longleftrightarrow> error_of ev \<noteq> None"

fun after_failure :: "event list \<Rightarrow> event list" where
  "after_failure [] = []"
| "after_failure (ev # evs) = (if failed ev then evs else after_failure evs)"

text \<open>
  Iteration \<open>k\<close> meets no obstacle: its send, its two prints and its receive all return.
  The first \<open>n\<close> iterations succeed: \<open>accept\<close> returns and each of them meets no obstacle.
\<close>

definition iteration_ok :: "websocket \<Rightarrow> console \<Rightarrow> nat \<Rightarrow> bool" where
  "iteration_ok ws out k \<longleftrightarrow>
     send_text ws k ''Hello!'' = Returns ()
     \<and> out (2 * k) ''Hello!'' = Returns ()
     \<and> is_Returns (receive_text ws k)
     \<and> out (2 * k + 1) (result (receive_text ws k)) = Returns ()"

definition succeeds :: "websocket \<Rightarrow> console \<Rightarrow> nat \<Rightarrow> bool" where
  "succeeds ws out n \<longleftrightarrow> accept ws = Returns () \<and> (\<forall>k \<in> {..<n}. iteration_ok ws out k)"

text \<open>
  Iteration \<open>k\<close> fails with \<open>e\<close>: one of its four calls raises \<open>e\<close>, the ones before it
  having returned.
\<close>

definition fails_at :: "websocket \<Rightarrow> console \<Rightarrow> nat \<Rightarrow> exn \<Rightarrow> bool" where
  "fails_at ws out k e \<longleftrightarrow>
     send_text ws k ''Hello!'' = Raises e
     \<or> send_text ws k ''Hello!'' = Returns () \<and> out (2 * k) ''Hello!'' = Raises e
     \<or> send_text ws k ''Hello!'' = Returns () \<and> out (2 * k) ''Hello!'' = Returns ()
        \<and> receive_text ws k = Raises e
     \<or> send_text ws k ''Hello!'' = Returns () \<and> out (2 * k) ''Hello!'' = Returns ()
        \<and> is_Returns (receive_text ws k)
        \<and> out (2 * k + 1) (result (receive_text ws k)) = Raises e"

text \<open>
  The same session with every exception replaced by another one; used to compare what the
  handler does on different exceptions.
\<close>

fun map_exn :: "(exn \<Rightarrow> exn) \<Rightarrow> 'a outcome \<Rightarrow> 'a outcome" where
  "map_exn f (Raises e) = Raises (f e)"
| "map_exn f (Returns x) = Returns x"
| "map_exn f Never_completes = Never_completes"

definition rename_exn :: "(exn \<Rightarrow> exn) \<Rightarrow> websocket \<Rightarrow> websocket" where
  "rename_exn f ws =
     \<lparr>accept = map_exn f (accept ws),
      send_text = (\<lambda>k s. map_exn f (send_text ws k s)),
      receive_text = (\<lambda>k. map_exn f (receive_text ws k))\<rparr>"

definition rename_out :: "(exn \<Rightarrow> exn) \<Rightarrow> console \<Rightarrow> console" where
  "rename_out f out = (\<lambda>j s. map_exn f (out j s))"

fun map_status :: "(exn \<Rightarrow> exn) \<Rightarrow> status \<Rightarrow> status" where
  "map_status f (Raised e) = Raised (f e)"
| "map_status f st = st"

text \<open>
  What is left of a session after \<open>d\<close> iterations of the loop: the calls from the \<open>d\<close>-th
  send and receive and from the \<open>2 * d\<close>-th print on.
\<close>

definition later :: "nat \<Rightarrow> websocket \<Rightarrow> websocket" where
  "later d ws =
     \<lparr>accept = accept ws,
      send_text = (\<lambda>k. send_text ws (d + k)),
      receive_text = (\<lambda>k. receive_text ws (d + k))\<rparr>"

definition later_out :: "nat \<Rightarrow> console \<Rightarrow> console" where
  "later_out d out = (\<lambda>j. out (2 * d + j))"

text \<open>
  Two sessions give the handler the same replies: every call it reaches gets the same
  outcome in both. The calls are those of \<open>root\<close>, in its order; a call is reached when the
  ones before it returned.
\<close>

fun same_then :: "'a outcome \<Rightarrow> 'a outcome \<Rightarrow> ('a \<Rightarrow> bool) \<Rightarrow> bool" where
  "same_then (Returns x) oc rest = (oc = Returns x \<and> rest x)"
| "same_then (Raises e) oc rest = (oc = Raises e)"
| "same_then Never_completes oc rest = (oc = Never_completes)"

fun same_replies ::
  "websocket \<Rightarrow> console \<Rightarrow> websocket \<Rightarrow> console \<Rightarrow> nat \<Rightarrow> nat \<Rightarrow> bool" where
  "same_replies ws1 out1 ws2 out2 0 k = True"
| "same_replies ws1 out1 ws2 out2 (Suc n) k =
     same_then (send_text ws1 k ''Hello!'') (send_text ws2 k ''Hello!'') (\<lambda>_.
     same_then (out1 (2 * k) ''Hello!'') (out2 (2 * k) ''Hello!'') (\<lambda>_.
     same_then (receive_text ws1 k) (receive_text ws2 k) (\<lambda>received.
     same_then (out1 (2 * k + 1) received) (out2 (2 * k + 1) received) (\<lambda>_.
     same_replies ws1 out1 ws2 out2 n (Suc k)))))"

definition same_session ::
  "websocket \<Rightarrow> console \<Rightarrow> websocket \<Rightarrow> console \<Rightarrow> nat \<Rightarrow> bool" where
  "same_session ws1 out1 ws2 out2 n =
     same_then (accept ws1) (accept ws2) (\<lambda>_. same_replies ws1 out1 ws2 out2 n 0)"

subsection \<open>Sample sessions\<close>

text \<open>
  A standard output that takes every text; one that can only encode ASCII; one that breaks
  at the fifth call of \<open>print\<close>.
\<close>

definition working_stdout :: console where
  "working_stdout = (\<lambda>j s. Returns ())"

definition ascii_stdout :: console where
  "ascii_stdout = (\<lambda>j s. if list_all (\<lambda>c. \<not> digit7 c) s then Returns () else Raises OutputError)"

definition flaky_stdout :: console where
  "flaky_stdout = (\<lambda>j s. if j < 4 then Returns () else Raises OutputError)"

text \<open>
  A peer whose upgrade is rejected; one that answers \<open>ping\<close> to every greeting; one that
  closes instead of answering; one that answers twice and then closes; a transport that
  breaks on the second send; a peer that stays connected and silent; one that differs
  from the \<open>ping\<close> peer only where the handler never looks in two iterations; and one that
  answers with the single character U+00E9.
\<close>

definition rejecting_peer :: websocket where
  "rejecting_peer =
     \<lparr>accept = Raises HandshakeError,
      send_text = (\<lambda>k s. Returns ()),
      receive_text = (\<lambda>k. Returns ''ping'')\<rparr>"

definition echo_peer :: websocket where
  "echo_peer =
     \<lparr>accept = Returns (),
      send_text = (\<lambda>k s. Returns ()),
      receive_text = (\<lambda>k. Returns ''ping'')\<rparr>"

definition closing_peer :: websocket where
  "closing_peer =
     \<lparr>accept = Returns (),
      send_text = (\<lambda>k s. Returns ()),
      receive_text = (\<lambda>k. Raises ConnectionClosed)\<rparr>"

definition talkative_peer :: websocket where
  "talkative_peer =
     \<lparr>accept = Returns (),
      send_text = (\<lambda>k s. Returns ()),
      receive_text = (\<lambda>k. if k = 0 then Returns ''ping''
                           else if k = 1 then Returns ''pong''
                           else Raises ConnectionClosed)\<rparr>"

definition reset_peer :: websocket where
  "reset_peer =
     \<lparr>accept = Returns (),
      send_text = (\<lambda>k s. if k = 1 then Raises TransportError else Returns ()),
      receive_text = (\<lambda>k. Returns ''ping'')\<rparr>"


definition picky_peer :: websocket where
  "picky_peer =
     \<lparr>accept = Returns (),
      send_text = (\<lambda>k s. if s = ''Hello!'' then Returns () else Raises TransportError),
      receive_text = (\<lambda>k. if k < 2 then Returns ''ping'' else Never_completes)\<rparr>"

definition accented_peer :: websocket where
  "accented_peer =
     \<lparr>accept = Returns (),
      send_text = (\<lambda>k s. Returns ()),
      receive_text = (\<lambda>k. Returns [CHR 0xE9])\<rparr>"

section \<open>The loop\<close>

text \<open>
  Facts about \<open>loop\<close>, each by induction on the number of iterations watched, with the
  iteration index generalised.
\<close>

lemma call_events [simp]:
  "fst (call oc ev rest) =
     (case oc of Returns x \<Rightarrow> ev (Returns x) # fst (rest x) | _ \<Rightarrow> [ev oc])"
  by (cases oc) (simp_all add: case_prod_beta)

lemma call_status [simp]:
  "snd (call oc ev rest) =
     (case oc of Returns x \<Rightarrow> snd (rest x) | Raises e \<Rightarrow> Raised e
      | Never_completes \<Rightarrow> Suspended)"
  by (cases oc) (simp_all add: case_prod_beta)

lemma loop_in_cycle: "in_cycle At_send (fst (loop ws out n k))"
  by (induction n arbitrary: k) (auto split: outcome.splits)

lemma loop_wire_alternates: "alternates Sent (wire_ops (fst (loop ws out n k)))"
  by (induction n arbitrary: k) (auto split: outcome.splits)

lemma loop_log_alternates: "alternates Sent (log_kinds (fst (loop ws out n k)))"
  by (induction n arbitrary: k) (auto split: outcome.splits)

lemma loop_written_alternates: "alternates Sent (written_kinds (fst (loop ws out n k)))"
  by (induction n arbitrary: k) (auto split: outcome.splits)

lemma loop_never_returned: "snd (loop ws out n k) \<noteq> Returned"
  by (induction n arbitrary: k) (auto split: outcome.splits)

lemma loop_greeting:
  "s \<in> set (sent_payloads (fst (loop ws out n k))) \<union> set (sent_logs (fst (loop ws out n k)))
   \<Longrightarrow> s = ''Hello!''"
  by (induction n arbitrary: k) (auto split: outcome.splits)

lemma loop_prints:
  "sent_logs (fst (loop ws out n k)) = ok_sends (fst (loop ws out n k))"
  "received_logs (fst (loop ws out n k)) = delivered (fst (loop ws out n k))"
  by (induction n arbitrary: k) (auto split: outcome.splits)

lemma loop_ok_sends:
  "ok_sends (fst (loop ws out n k))
     = replicate (length (ok_sends (fst (loop ws out n k)))) ''Hello!''"
  by (induction n arbitrary: k) (auto split: outcome.splits)

lemma loop_stdout:
  "expected_log (fst (loop ws out n k)) = stdout (fst (loop ws out n k)) @ lost (fst (loop ws out n k))
   \<and> length (lost (fst (loop ws out n k))) \<le> 1
   \<and> (snd (loop ws out n k) = Still_running \<longrightarrow> lost (fst (loop ws out n k)) = [])"
  by (induction n arbitrary: k) (auto split: outcome.splits)

lemma iteration_okD:
  "iteration_ok ws out k \<Longrightarrow>
     send_text ws k ''Hello!'' = Returns () \<and> out (2 * k) ''Hello!'' = Returns ()
     \<and> (\<exists>m. receive_text ws k = Returns m \<and> out (2 * k + 1) m = Returns ())"
  by (cases "receive_text ws k") (auto simp: iteration_ok_def)

lemma loop_step_ok:
  "iteration_ok ws out k \<Longrightarrow>
     loop ws out (Suc n) k =
       ([Send_text ''Hello!'' (Returns ()), Print_sent ''Hello!'' (Returns ()),
         Receive_text (receive_text ws k),
         Print_received (result (receive_text ws k)) (Returns ())] @ fst (loop ws out n (Suc k)),
        snd (loop ws out n (Suc k)))"
  by (auto dest!: iteration_okD simp: case_prod_beta)

lemma shift_range:
  "(\<forall>j<Suc n. P (k + j)) \<longleftrightarrow> P k \<and> (\<forall>j<n. P (Suc k + j))"
  by (auto simp: less_Suc_eq_0_disj)

lemma loop_received:
  "i < length (received_logs (fst (loop ws out n k)))
   \<Longrightarrow> receive_text ws (k + i) = Returns (received_logs (fst (loop ws out n k)) ! i)"
proof (induction n arbitrary: k i)
  case 0
  then show ?case by simp
next
  case (Suc n)
  show ?case
  proof (cases i)
    case 0
    with Suc.prems show ?thesis
      by (auto split: outcome.splits)
  next
    case (Suc i')
    with Suc.prems Suc.IH [of i' "Suc k"] show ?thesis
      by (auto split: outcome.splits)
  qed
qed

lemma loop_after_failure: "after_failure (fst (loop ws out n k)) = []"
  by (induction n arbitrary: k) (auto simp: failed_def split: outcome.splits)

lemma loop_failure:
  "ev \<in> set (fst (loop ws out n k)) \<Longrightarrow> error_of ev = Some e
   \<Longrightarrow> last (fst (loop ws out n k)) = ev \<and> snd (loop ws out n k) = Raised e
       \<and> length (filter failed (fst (loop ws out n k))) = 1"
  by (induction n arbitrary: k) (auto simp: failed_def split: outcome.splits)

lemma loop_raised:
  "snd (loop ws out n k) = Raised e
   \<longleftrightarrow> fst (loop ws out n k) \<noteq> [] \<and> error_of (last (fst (loop ws out n k))) = Some e"
  by (induction n arbitrary: k) (auto split: outcome.splits)

lemma loop_stable:
  "snd (loop ws out n k) \<noteq> Still_running \<Longrightarrow> loop ws out (n + d) k = loop ws out n k"
  by (induction n arbitrary: k) (auto simp: prod_eq_iff split: outcome.splits)

lemma map_exn_cases [simp]:
  "map_exn f oc = Returns x \<longleftrightarrow> oc = Returns x"
  "map_exn f oc = Never_completes \<longleftrightarrow> oc = Never_completes"
  "map_exn f oc = Raises e' \<longleftrightarrow> (\<exists>e. oc = Raises e \<and> e' = f e)"
  by (cases oc; auto)+

lemma loop_rename:
  "stdout (fst (loop (rename_exn f ws) (rename_out f out) n k)) = stdout (fst (loop ws out n k))
   \<and> snd (loop (rename_exn f ws) (rename_out f out) n k) = map_status f (snd (loop ws out n k))"
  by (induction n arbitrary: k)
     (auto simp: rename_exn_def rename_out_def split: outcome.splits)

lemma loop_running:
  "snd (loop ws out n k) = Still_running \<longleftrightarrow> (\<forall>j<n. iteration_ok ws out (k + j))"
proof (induction n arbitrary: k)
  case 0
  then show ?case by simp
next
  case (Suc n)
  show ?case
    unfolding shift_range [of n "iteration_ok ws out" k]
    using Suc.IH [of "Suc k"]
    by (auto simp: iteration_ok_def split: outcome.splits)
qed

lemma loop_success:
  "(\<forall>j<n. iteration_ok ws out (k + j))
   \<Longrightarrow> wire_ops (fst (loop ws out n k)) = concat (replicate n [Sent, Received])
     \<and> log_kinds (fst (loop ws out n k)) = concat (replicate n [Sent, Received])
     \<and> written_kinds (fst (loop ws out n k)) = concat (replicate n [Sent, Received])
     \<and> sent_payloads (fst (loop ws out n k)) = replicate n ''Hello!''
     \<and> received_logs (fst (loop ws out n k))
         = map (\<lambda>j. result (receive_text ws (k + j))) [0..<n]"
proof (induction n arbitrary: k)
  case 0
  then show ?case by simp
next
  case (Suc n)
  from Suc.prems shift_range [of n "iteration_ok ws out" k]
  have here: "iteration_ok ws out k"
    and rest: "\<forall>j<n. iteration_ok ws out (Suc k + j)"
    by blast+
  have shift: "map (\<lambda>j. result (receive_text ws (k + j))) [0..<Suc n]
          = result (receive_text ws k) # map (\<lambda>j. result (receive_text ws (Suc k + j))) [0..<n]"
    by (simp add: upt_conv_Cons map_Suc_upt [symmetric] del: upt_Suc)
  from iteration_okD [OF here] obtain m where m: "receive_text ws k = Returns m"
    by blast
  show ?case
    unfolding shift loop_step_ok [OF here] using Suc.IH [OF rest] m
    by simp
qed

lemma loop_fails:
  "(\<forall>j<i. iteration_ok ws out (k + j)) \<Longrightarrow> fails_at ws out (k + i) e
   \<Longrightarrow> snd (loop ws out (Suc i) k) = Raised e"
proof (induction i arbitrary: k)
  case 0
  then show ?case
    by (cases "receive_text ws k") (auto simp: fails_at_def)
next
  case (Suc i)
  from Suc.prems(1) shift_range [of i "iteration_ok ws out" k]
  have here: "iteration_ok ws out k"
    and rest: "\<forall>j<i. iteration_ok ws out (Suc k + j)"
    by blast+
  from Suc.prems(2) have "fails_at ws out (Suc k + i) e"
    by simp
  with rest have "snd (loop ws out (Suc i) (Suc k)) = Raised e"
    by (rule Suc.IH)
  then show ?case
    by (simp only: loop_step_ok [OF here] snd_conv)
qed

lemma loop_cong:
  "(\<forall>j<n. send_text ws1 (k + j) ''Hello!'' = send_text ws2 (k + j) ''Hello!''
          \<and> receive_text ws1 (k + j) = receive_text ws2 (k + j)
          \<and> (\<forall>s. out1 (2 * (k + j)) s = out2 (2 * (k + j)) s)
          \<and> (\<forall>s. out1 (2 * (k + j) + 1) s = out2 (2 * (k + j) + 1) s))
   \<Longrightarrow> loop ws1 out1 n k = loop ws2 out2 n k"
proof (induction n arbitrary: k)
  case 0
  then show ?case by simp
next
  case (Suc n)
  let ?P = "\<lambda>i. send_text ws1 i ''Hello!'' = send_text ws2 i ''Hello!''
          \<and> receive_text ws1 i = receive_text ws2 i
          \<and> (\<forall>s. out1 (2 * i) s = out2 (2 * i) s)
          \<and> (\<forall>s. out1 (2 * i + 1) s = out2 (2 * i + 1) s)"
  from Suc.prems have "\<forall>j<Suc n. ?P (k + j)"
    by simp
  with shift_range [of n ?P k] have here: "?P k" and rest: "\<forall>j<n. ?P (Suc k + j)"
    by blast+
  from rest have "loop ws1 out1 n (Suc k) = loop ws2 out2 n (Suc k)"
    by (intro Suc.IH) simp
  with here show ?case
    by (simp only: loop.simps)
qed

lemma loop_same:
  "loop ws1 out1 n k = loop ws2 out2 n k \<longleftrightarrow> same_replies ws1 out1 ws2 out2 n k"
  by (induction n arbitrary: k) (auto simp: prod_eq_iff split: outcome.splits)

lemma loop_shift:
  "loop ws out n (d + k) = loop (later d ws) (later_out d out) n k"
proof (induction n arbitrary: k)
  case 0
  then show ?case by simp
next
  case (Suc n)
  have idx: "2 * (d + k) = 2 * d + 2 * k" "2 * (d + k) + 1 = 2 * d + (2 * k + 1)"
    by simp_all
  from Suc.IH [of "Suc k"] have "loop ws out n (Suc (d + k)) = loop (later d ws) (later_out d out) n (Suc k)"
    by simp
  then show ?case
    by (simp only: loop.simps idx) (simp add: later_def later_out_def)
qed

lemma loop_append:
  "(\<forall>j<d. iteration_ok ws out (k + j))
   \<Longrightarrow> loop ws out (d + n) k
       = (fst (loop ws out d k) @ fst (loop ws out n (d + k)), snd (loop ws out n (d + k)))"
proof (induction d arbitrary: k)
  case 0
  then show ?case by simp
next
  case (Suc d)
  from Suc.prems shift_range [of d "iteration_ok ws out" k]
  have here: "iteration_ok ws out k"
    and rest: "\<forall>j<d. iteration_ok ws out (Suc k + j)"
    by blast+
  from Suc.IH [OF rest] show ?case
    by (simp add: loop_step_ok [OF here] del: loop.simps)
qed

section \<open>Properties of the handler\<close>

lemma succeeds_accept: "succeeds ws out n \<Longrightarrow> accept ws = Returns ()"
  by (simp add: succeeds_def)

lemma succeeds_loop:
  "succeeds ws out n \<Longrightarrow> \<forall>j<n. iteration_ok ws out (0 + j)"
  by (simp add: succeeds_def)

lemma root_events:
  "fst (root ws out n) =
     (case accept ws of Returns u \<Rightarrow> Accept (Returns u) # fst (loop ws out n 0)
      | oc \<Rightarrow> [Accept oc])"
  by (simp add: root_def split: outcome.splits)

lemma root_status:
  "snd (root ws out n) =
     (case accept ws of Returns u \<Rightarrow> snd (loop ws out n 0)
      | Raises e \<Rightarrow> Raised e | Never_completes \<Rightarrow> Suspended)"
  by (simp add: root_def split: outcome.splits)

lemma root_raised:
  "(snd (root ws out n) = Raised e) = (error_of (last (fst (root ws out n))) = Some e)"
proof (cases "accept ws")
  case (Returns u)
  show ?thesis
  proof (cases "fst (loop ws out n 0) = []")
    case True
    with Returns loop_raised [of ws out n 0 e] show ?thesis
      by (simp add: root_events root_status)
  next
    case False
    with Returns loop_raised [of ws out n 0 e] show ?thesis
      by (simp add: root_events root_status)
  qed
qed (auto simp: root_def)

text \<open>
  C1. In every run the calls on the connection alternate send, receive, send, receive,
  starting with a send; so do the calls of \<open>print\<close> (sent, received, sent, ...) and the
  records they write; the whole trace after \<open>accept\<close> walks the loop body in order (send,
  its record, receive, its record). So send \<open>N\<close> comes before receive \<open>N\<close>, which comes
  before send \<open>N + 1\<close>. In a run whose first \<open>n\<close> iterations succeed, the sequences are exactly
  \<open>n\<close> times (sent, received).
\<close>

theorem C1_alternation:
  "in_cycle At_send (tl (fst (root ws out n)))
   \<and> alternates Sent (wire_ops (fst (root ws out n)))
   \<and> alternates Sent (log_kinds (fst (root ws out n)))
   \<and> alternates Sent (written_kinds (fst (root ws out n)))
   \<and> (succeeds ws out n \<longrightarrow>
        wire_ops (fst (root ws out n)) = concat (replicate n [Sent, Received])
        \<and> log_kinds (fst (root ws out n)) = concat (replicate n [Sent, Received])
        \<and> written_kinds (fst (root ws out n)) = concat (replicate n [Sent, Received]))"
proof -
  have "in_cycle At_send (tl (fst (root ws out n)))"
    by (simp add: root_events loop_in_cycle split: outcome.splits)
  moreover have "alternates Sent (wire_ops (fst (root ws out n)))"
    by (simp add: root_events loop_wire_alternates split: outcome.splits)
  moreover have "alternates Sent (log_kinds (fst (root ws out n)))"
    by (simp add: root_events loop_log_alternates split: outcome.splits)
  moreover have "alternates Sent (written_kinds (fst (root ws out n)))"
    by (simp add: root_events loop_written_alternates split: outcome.splits)
  moreover have "wire_ops (fst (root ws out n)) = concat (replicate n [Sent, Received])
        \<and> log_kinds (fst (root ws out n)) = concat (replicate n [Sent, Received])
        \<and> written_kinds (fst (root ws out n)) = concat (replicate n [Sent, Received])"
    if "succeeds ws out n"
  proof -
    from loop_success [OF succeeds_loop [OF that]] succeeds_accept [OF that]
    show ?thesis
      by (simp add: root_events)
  qed
  ultimately show ?thesis by blast
qed

theorem C1_alternation_witness:
  "succeeds echo_peer working_stdout 2
   \<and> in_cycle At_send (tl (fst (root echo_peer working_stdout 2)))
   \<and> wire_ops (fst (root echo_peer working_stdout 2)) = [Sent, Received, Sent, Received]
   \<and> log_kinds (fst (root echo_peer working_stdout 2)) = [Sent, Received, Sent, Received]
   \<and> written_kinds (fst (root echo_peer working_stdout 2)) = [Sent, Received, Sent, Received]"
proof -
  have h: "succeeds echo_peer working_stdout 2"
    by (simp add: succeeds_def iteration_ok_def echo_peer_def working_stdout_def)
  show ?thesis
    using h C1_alternation [of echo_peer working_stdout 2] by (simp add: numeral_2_eq_2)
qed

text \<open>
  C2. In every run, every message passed to \<open>send_text\<close> and every text passed to the
  \<open>print\<close> that records a send is the literal \<open>Hello!\<close>.
\<close>

theorem C2_fixed_greeting:
  "\<forall>s \<in> set (sent_payloads (fst (root ws out n))) \<union> set (sent_logs (fst (root ws out n))).
     s = ''Hello!''"
proof
  fix s
  assume "s \<in> set (sent_payloads (fst (root ws out n))) \<union> set (sent_logs (fst (root ws out n)))"
  then have "accept ws = Returns ()
      \<and> s \<in> set (sent_payloads (fst (loop ws out n 0))) \<union> set (sent_logs (fst (loop ws out n 0)))"
    by (auto simp: root_events split: outcome.splits)
  then show "s = ''Hello!''"
    using loop_greeting by blast
qed

theorem C2_fixed_greeting_witness:
  "sent_payloads (fst (root echo_peer working_stdout 2)) = [''Hello!'', ''Hello!'']
   \<and> sent_logs (fst (root echo_peer working_stdout 2)) = [''Hello!'', ''Hello!'']"
  using C2_fixed_greeting [of echo_peer working_stdout 2]
  by (simp add: root_def echo_peer_def working_stdout_def numeral_2_eq_2)

text \<open>
  C3. In every run, the text passed to the \<open>i\<close>-th \<open>print\<close> that records a receive is
  exactly the text that the \<open>i\<close>-th call of \<open>receive_text\<close> returned, unchanged; when the
  first \<open>n\<close> iterations succeed these are the \<open>n\<close> texts the peer delivered, in order.
\<close>

theorem C3_content_fidelity:
  "(\<forall>i < length (received_logs (fst (root ws out n))).
      receive_text ws i = Returns (received_logs (fst (root ws out n)) ! i))
   \<and> (succeeds ws out n \<longrightarrow>
        received_logs (fst (root ws out n)) = map (\<lambda>k. result (receive_text ws k)) [0..<n])"
proof (intro conjI allI impI)
  fix i
  assume "i < length (received_logs (fst (root ws out n)))"
  then have "i < length (received_logs (fst (loop ws out n 0)))
      \<and> received_logs (fst (root ws out n)) = received_logs (fst (loop ws out n 0))"
    by (auto simp: root_events split: outcome.splits)
  then show "receive_text ws i = Returns (received_logs (fst (root ws out n)) ! i)"
    using loop_received [of i ws out n 0] by simp
next
  assume ok: "succeeds ws out n"
  from loop_success [OF succeeds_loop [OF ok]] succeeds_accept [OF ok]
  show "received_logs (fst (root ws out n)) = map (\<lambda>k. result (receive_text ws k)) [0..<n]"
    by (simp add: root_events)
qed

theorem C3_content_fidelity_witness:
  "received_logs (fst (root talkative_peer working_stdout 5)) = [''ping'', ''pong'']
   \<and> receive_text talkative_peer 0 = Returns ''ping''
   \<and> receive_text talkative_peer 1 = Returns ''pong''
   \<and> succeeds talkative_peer working_stdout 2
   \<and> received_logs (fst (root talkative_peer working_stdout 2)) = [''ping'', ''pong'']"
proof -
  have tr: "received_logs (fst (root talkative_peer working_stdout 5)) = [''ping'', ''pong'']"
    by (simp add: root_def talkative_peer_def working_stdout_def eval_nat_numeral)
  have h: "succeeds talkative_peer working_stdout 2"
    by (simp add: succeeds_def iteration_ok_def talkative_peer_def working_stdout_def)
  show ?thesis
    using tr h C3_content_fidelity [of talkative_peer working_stdout 5]
      C3_content_fidelity [of talkative_peer working_stdout 2]
    by (simp add: talkative_peer_def upt_conv_Cons)
qed

text \<open>
  C4. If \<open>accept()\<close> fails (with \<open>HandshakeError\<close> or any other exception), the handler ends
  at once with that exception, however long it is watched: the only event is the failed
  \<open>accept\<close>; there is no send, no receive and no \<open>print\<close>.
\<close>

theorem C4_handshake_failure:
  assumes "accept ws = Raises e"
  shows "root ws out n = ([Accept (Raises e)], Raised e) \<and> stdout (fst (root ws out n)) = []"
  using assms by (simp add: root_def)

theorem C4_handshake_failure_witness:
  "accept rejecting_peer = Raises HandshakeError
   \<and> root rejecting_peer working_stdout 5
       = ([Accept (Raises HandshakeError)], Raised HandshakeError)
   \<and> stdout (fst (root rejecting_peer working_stdout 5)) = []"
proof -
  have h: "accept rejecting_peer = Raises HandshakeError"
    by (simp add: rejecting_peer_def)
  show ?thesis
    using h C4_handshake_failure [OF h, of working_stdout 5] by simp
qed

text \<open>
  C5. If the handler comes through \<open>k\<close> iterations and a call of the next one raises, then
  however much longer it is watched the run is the one that stops at that call: the
  handler has ended with that exception, and the failed call is its last event.
  In any run, a call that raised is the last event: nothing follows it (no send, no receive,
  no printed line), it is the only failed call (no retry), the handler has ended with its
  exception, and watching for longer shows the same run.
\<close>

theorem C5_failure_is_final:
  "(succeeds ws out k \<and> fails_at ws out k e \<and> k < m \<longrightarrow>
      root ws out m = root ws out (Suc k)
      \<and> snd (root ws out m) = Raised e
      \<and> error_of (last (fst (root ws out m))) = Some e)
   \<and> (ev \<in> set (fst (root ws out n)) \<and> error_of ev = Some e' \<longrightarrow>
        last (fst (root ws out n)) = ev
        \<and> after_failure (fst (root ws out n)) = []
        \<and> length (filter failed (fst (root ws out n))) = 1
        \<and> snd (root ws out n) = Raised e'
        \<and> (\<forall>m'\<ge>n. root ws out m' = root ws out n))"
proof -
  have first: "root ws out m = root ws out (Suc k)
      \<and> snd (root ws out m) = Raised e
      \<and> error_of (last (fst (root ws out m))) = Some e"
    if ok: "succeeds ws out k" and f: "fails_at ws out k e" and km: "k < m"
  proof -
    from f have "fails_at ws out (0 + k) e"
      by simp
    with succeeds_loop [OF ok] have st: "snd (loop ws out (Suc k) 0) = Raised e"
      by (rule loop_fails)
    from km obtain d where m: "m = Suc k + d"
      using less_iff_Suc_add by auto
    have eq: "loop ws out (Suc k + d) 0 = loop ws out (Suc k) 0"
      using st by (intro loop_stable) simp
    have same: "root ws out m = root ws out (Suc k)"
      unfolding m root_def eq by (rule refl)
    from st succeeds_accept [OF ok] have r: "snd (root ws out (Suc k)) = Raised e"
      by (simp add: root_status del: loop.simps)
    then have "error_of (last (fst (root ws out (Suc k)))) = Some e"
      by (simp only: root_raised)
    with r show ?thesis
      by (simp only: same)
  qed
  have second: "last (fst (root ws out n)) = ev
        \<and> after_failure (fst (root ws out n)) = []
        \<and> length (filter failed (fst (root ws out n))) = 1
        \<and> snd (root ws out n) = Raised e'
        \<and> (\<forall>m'\<ge>n. root ws out m' = root ws out n)"
    if mem0: "ev \<in> set (fst (root ws out n))" and err: "error_of ev = Some e'"
  proof (cases "accept ws")
    case (Returns u)
    with mem0 err have mem: "ev \<in> set (fst (loop ws out n 0))"
      by (auto simp: root_events)
    then have ne: "fst (loop ws out n 0) \<noteq> []"
      by auto
    from loop_failure [OF mem err]
    have l: "last (fst (loop ws out n 0)) = ev" "snd (loop ws out n 0) = Raised e'"
      "length (filter failed (fst (loop ws out n 0))) = 1"
      by simp_all
    have stable: "root ws out m' = root ws out n" if "n \<le> m'" for m'
    proof -
      from that obtain d where m: "m' = n + d"
        using le_Suc_ex by blast
      have eq: "loop ws out (n + d) 0 = loop ws out n 0"
        using l(2) by (intro loop_stable) simp
      show ?thesis
        unfolding m root_def eq by (rule refl)
    qed
    from l ne Returns have "last (fst (root ws out n)) = ev
      \<and> after_failure (fst (root ws out n)) = []
      \<and> length (filter failed (fst (root ws out n))) = 1
      \<and> snd (root ws out n) = Raised e'"
      by (simp add: root_events root_status failed_def loop_after_failure)
    with stable show ?thesis
      by blast
  next
    case (Raises x)
    with mem0 err show ?thesis
      by (auto simp: root_def failed_def)
  next
    case Never_completes
    with mem0 err show ?thesis
      by (auto simp: root_def)
  qed
  from first second show ?thesis
    by blast
qed

theorem C5_failure_is_final_witness:
  "succeeds reset_peer working_stdout 1 \<and> fails_at reset_peer working_stdout 1 TransportError
   \<and> root reset_peer working_stdout 6 = root reset_peer working_stdout 2
   \<and> snd (root reset_peer working_stdout 6) = Raised TransportError
   \<and> Receive_text (Raises ConnectionClosed) \<in> set (fst (root closing_peer working_stdout 3))
   \<and> error_of (Receive_text (Raises ConnectionClosed)) = Some ConnectionClosed
   \<and> root closing_peer working_stdout 3 =
       ([Accept (Returns ()), Send_text ''Hello!'' (Returns ()),
         Print_sent ''Hello!'' (Returns ()),
         Receive_text (Raises ConnectionClosed)], Raised ConnectionClosed)
   \<and> root closing_peer working_stdout 8 = root closing_peer working_stdout 3"
proof -
  have g1: "succeeds reset_peer working_stdout 1"
    by (simp add: succeeds_def iteration_ok_def reset_peer_def working_stdout_def)
  have g2: "fails_at reset_peer working_stdout 1 TransportError"
    by (simp add: fails_at_def reset_peer_def)
  have g3: "(1::nat) < 6"
    by simp
  from C5_failure_is_final [of reset_peer working_stdout 1 TransportError 6] g1 g2 g3
  have "root reset_peer working_stdout 6 = root reset_peer working_stdout (Suc 1)"
    and f2: "snd (root reset_peer working_stdout 6) = Raised TransportError"
    by blast+
  then have f1: "root reset_peer working_stdout 6 = root reset_peer working_stdout 2"
    by (simp only: Suc_1)
  have tr: "root closing_peer working_stdout 3 =
       ([Accept (Returns ()), Send_text ''Hello!'' (Returns ()),
         Print_sent ''Hello!'' (Returns ()),
         Receive_text (Raises ConnectionClosed)], Raised ConnectionClosed)"
    by (simp add: root_def closing_peer_def working_stdout_def eval_nat_numeral)
  have h1: "Receive_text (Raises ConnectionClosed) \<in> set (fst (root closing_peer working_stdout 3))"
    by (simp add: tr)
  have h2: "error_of (Receive_text (Raises ConnectionClosed)) = Some ConnectionClosed"
    by simp
  have later: "(3::nat) \<le> 8"
    by simp
  from C5_failure_is_final [of closing_peer working_stdout _ _ _
      "Receive_text (Raises ConnectionClosed)" 3 ConnectionClosed] h1 h2 later
  have "root closing_peer working_stdout 8 = root closing_peer working_stdout 3"
    by blast
  with g1 g2 f1 f2 tr h1 h2 show ?thesis
    by blast
qed

text \<open>
  The peer answers with a character that standard output cannot encode. Every send and
  every receive returns, yet the handler ends in its first iteration: \<open>print(received)\<close>
  raises.
\<close>

theorem C6_counterexample:
  "send_text accented_peer 0 ''Hello!'' = Returns ()
   \<and> receive_text accented_peer 0 = Returns [CHR 0xE9]
   \<and> root accented_peer ascii_stdout 3 =
       ([Accept (Returns ()), Send_text ''Hello!'' (Returns ()),
         Print_sent ''Hello!'' (Returns ()), Receive_text (Returns [CHR 0xE9]),
         Print_received [CHR 0xE9] (Raises OutputError)], Raised OutputError)"
  by (simp add: root_def accented_peer_def ascii_stdout_def eval_nat_numeral)

text \<open>
  C6, as amended. The handler never returns. While \<open>accept\<close> and the sends, receives and
  prints of the first \<open>n\<close> iterations succeed, it is still running after \<open>n\<close> complete
  iterations, for every \<open>n\<close>; it is still running after \<open>n\<close> iterations only in that case; and
  it has ended with an exception exactly when its last call (an \<open>accept\<close>, a send, a receive
  or a \<open>print\<close>) raised that exception.
\<close>

theorem C6_runs_until_failure:
  "snd (root ws out n) \<noteq> Returned
   \<and> (succeeds ws out n \<longrightarrow>
        snd (root ws out n) = Still_running
        \<and> length (sent_payloads (fst (root ws out n))) = n
        \<and> length (received_logs (fst (root ws out n))) = n)
   \<and> (snd (root ws out n) = Still_running) = succeeds ws out n
   \<and> (snd (root ws out n) = Raised e) = (error_of (last (fst (root ws out n))) = Some e)"
proof -
  have "snd (root ws out n) \<noteq> Returned"
    by (simp add: root_status loop_never_returned split: outcome.splits)
  moreover have run: "(snd (root ws out n) = Still_running) = succeeds ws out n"
    by (auto simp: root_status loop_running succeeds_def split: outcome.splits)
  moreover have "length (sent_payloads (fst (root ws out n))) = n
        \<and> length (received_logs (fst (root ws out n))) = n" if "succeeds ws out n"
    using loop_success [OF succeeds_loop [OF that]] succeeds_accept [OF that]
    by (simp add: root_events)
  ultimately show ?thesis
    using root_raised [of ws out n e] by blast
qed

theorem C6_runs_until_failure_witness:
  "succeeds echo_peer working_stdout 3
   \<and> snd (root echo_peer working_stdout 3) = Still_running
   \<and> length (sent_payloads (fst (root echo_peer working_stdout 3))) = 3
   \<and> length (received_logs (fst (root echo_peer working_stdout 3))) = 3"
proof -
  have h: "succeeds echo_peer working_stdout 3"
    by (simp add: succeeds_def iteration_ok_def echo_peer_def working_stdout_def)
  show ?thesis
    using h C6_runs_until_failure [of echo_peer working_stdout 3] by simp
qed

text \<open>
  The transport breaks on the second send. The handler prints the greeting and the answer
  of the first iteration and nothing else: no line follows the failed call.
\<close>

theorem C7_counterexample:
  "root reset_peer working_stdout 4 =
     ([Accept (Returns ()), Send_text ''Hello!'' (Returns ()),
       Print_sent ''Hello!'' (Returns ()),
       Receive_text (Returns ''ping''), Print_received ''ping'' (Returns ()),
       Send_text ''Hello!'' (Raises TransportError)], Raised TransportError)
   \<and> stdout (fst (root reset_peer working_stdout 4)) = [''Hello!'', ''ping'']
   \<and> stdout (after_failure (fst (root reset_peer working_stdout 4))) = []"
  by (simp add: root_def reset_peer_def working_stdout_def eval_nat_numeral failed_def)

text \<open>
  C7, as amended. The handler logs no failure at all: no line is printed after a failed
  call, and replacing the exceptions a session raises by others (a \<open>TransportError\<close> by a
  \<open>ConnectionClosed\<close>, say) changes neither the printed lines nor the way the run ends,
  except for the name of the exception that leaves the handler. The exception does leave
  the handler: the run has ended with it exactly when the last call raised it.
\<close>

theorem C7_no_error_logging:
  "stdout (after_failure (fst (root ws out n))) = []
   \<and> stdout (fst (root (rename_exn f ws) (rename_out f out) n)) = stdout (fst (root ws out n))
   \<and> snd (root (rename_exn f ws) (rename_out f out) n) = map_status f (snd (root ws out n))
   \<and> (snd (root ws out n) = Raised e) = (error_of (last (fst (root ws out n))) = Some e)"
proof -
  have "after_failure (fst (root ws out n)) = []"
    by (simp add: root_events loop_after_failure failed_def split: outcome.splits)
  moreover have "stdout (fst (root (rename_exn f ws) (rename_out f out) n))
        = stdout (fst (root ws out n))
   \<and> snd (root (rename_exn f ws) (rename_out f out) n) = map_status f (snd (root ws out n))"
  proof (cases "accept ws")
    case (Returns u)
    then have "accept (rename_exn f ws) = Returns u"
      by (simp add: rename_exn_def)
    with Returns loop_rename [of f ws out n 0] show ?thesis
      by (simp add: root_events root_status)
  qed (simp_all add: root_def rename_exn_def)
  ultimately show ?thesis
    using root_raised [of ws out n e] by simp
qed

theorem C7_no_error_logging_witness:
  "stdout (fst (root (rename_exn (\<lambda>e. ConnectionClosed) reset_peer)
                     (rename_out (\<lambda>e. ConnectionClosed) working_stdout) 4))
     = stdout (fst (root reset_peer working_stdout 4))
   \<and> snd (root reset_peer working_stdout 4) = Raised TransportError
   \<and> error_of (last (fst (root reset_peer working_stdout 4))) = Some TransportError
   \<and> snd (root (rename_exn (\<lambda>e. ConnectionClosed) reset_peer)
               (rename_out (\<lambda>e. ConnectionClosed) working_stdout) 4) = Raised ConnectionClosed"
proof -
  have "snd (root reset_peer working_stdout 4) = Raised TransportError"
    by (simp add: root_def reset_peer_def working_stdout_def eval_nat_numeral)
  then show ?thesis
    using C7_no_error_logging [of reset_peer working_stdout 4 "\<lambda>e. ConnectionClosed" TransportError]
    by simp
qed

text \<open>
  With the same peer and standard output, the receive returns and leaves no record: the
  only line written is the greeting.
\<close>

theorem C8_counterexample:
  "delivered (fst (root accented_peer ascii_stdout 3)) = [[CHR 0xE9]]
   \<and> stdout (fst (root accented_peer ascii_stdout 3)) = [''Hello!'']
   \<and> snd (root accented_peer ascii_stdout 3) = Raised OutputError"
  by (simp add: root_def accented_peer_def ascii_stdout_def eval_nat_numeral)

text \<open>
  C8, as amended. Each send that returned is followed by exactly one \<open>print\<close>, of the
  greeting, and each receive that returned by exactly one \<open>print\<close>, of the text received.
  The records on standard output are, in order, one for each call that returned, except
  that the last of them is missing when its \<open>print\<close> did not return; that ends the run.
  The handler does nothing else: its trace is \<open>accept\<close> followed by the four statements of
  the loop body in order. It keeps nothing from one iteration to the next: after \<open>d\<close>
  iterations it goes on exactly as it would from the start on what is left of the session.
\<close>

theorem C8_one_print_per_success:
  "sent_logs (fst (root ws out n)) = ok_sends (fst (root ws out n))
   \<and> sent_logs (fst (root ws out n))
       = replicate (length (ok_sends (fst (root ws out n)))) ''Hello!''
   \<and> received_logs (fst (root ws out n)) = delivered (fst (root ws out n))
   \<and> expected_log (fst (root ws out n))
       = stdout (fst (root ws out n)) @ lost (fst (root ws out n))
   \<and> length (lost (fst (root ws out n))) \<le> 1
   \<and> (snd (root ws out n) = Still_running \<longrightarrow> lost (fst (root ws out n)) = [])
   \<and> hd (fst (root ws out n)) = Accept (accept ws)
   \<and> in_cycle At_send (tl (fst (root ws out n)))
   \<and> (succeeds ws out d \<longrightarrow>
        fst (root ws out (d + n))
          = fst (root ws out d) @ tl (fst (root (later d ws) (later_out d out) n))
        \<and> snd (root ws out (d + n)) = snd (root (later d ws) (later_out d out) n))"
proof -
  have prints: "sent_logs (fst (root ws out n)) = ok_sends (fst (root ws out n))
   \<and> sent_logs (fst (root ws out n))
       = replicate (length (ok_sends (fst (root ws out n)))) ''Hello!''
   \<and> received_logs (fst (root ws out n)) = delivered (fst (root ws out n))"
    using loop_ok_sends [of ws out n 0]
    by (cases "accept ws") (simp_all add: root_events loop_prints)
  have records: "expected_log (fst (root ws out n))
       = stdout (fst (root ws out n)) @ lost (fst (root ws out n))
   \<and> length (lost (fst (root ws out n))) \<le> 1
   \<and> (snd (root ws out n) = Still_running \<longrightarrow> lost (fst (root ws out n)) = [])"
    using loop_stdout [of ws out n 0]
    by (cases "accept ws") (simp_all add: root_events root_status)
  have shape: "hd (fst (root ws out n)) = Accept (accept ws)
   \<and> in_cycle At_send (tl (fst (root ws out n)))"
    by (cases "accept ws") (simp_all add: root_events loop_in_cycle)
  have memory: "fst (root ws out (d + n))
          = fst (root ws out d) @ tl (fst (root (later d ws) (later_out d out) n))
        \<and> snd (root ws out (d + n)) = snd (root (later d ws) (later_out d out) n)"
    if ok: "succeeds ws out d"
  proof -
    have a: "accept ws = Returns ()" "accept (later d ws) = Returns ()"
      using succeeds_accept [OF ok] by (simp_all add: later_def)
    have "loop ws out (d + n) 0
        = (fst (loop ws out d 0) @ fst (loop ws out n (d + 0)), snd (loop ws out n (d + 0)))"
      by (rule loop_append [OF succeeds_loop [OF ok]])
    also have "loop ws out n (d + 0) = loop (later d ws) (later_out d out) n 0"
      by (rule loop_shift)
    finally show ?thesis
      using a by (simp add: root_events root_status)
  qed
  from prints records shape memory show ?thesis
    by blast
qed

theorem C8_one_print_per_success_witness:
  "stdout (fst (root talkative_peer working_stdout 5))
     = [''Hello!'', ''ping'', ''Hello!'', ''pong'', ''Hello!'']
   \<and> ok_sends (fst (root talkative_peer working_stdout 5)) = [''Hello!'', ''Hello!'', ''Hello!'']
   \<and> delivered (fst (root talkative_peer working_stdout 5)) = [''ping'', ''pong'']
   \<and> lost (fst (root talkative_peer working_stdout 5)) = []
   \<and> lost (fst (root accented_peer ascii_stdout 5)) = [[CHR 0xE9]]
   \<and> succeeds talkative_peer working_stdout 1
   \<and> fst (root talkative_peer working_stdout (1 + 4))
       = fst (root talkative_peer working_stdout 1)
         @ tl (fst (root (later 1 talkative_peer) (later_out 1 working_stdout) 4))"
proof -
  have h: "succeeds talkative_peer working_stdout 1"
    by (simp add: succeeds_def iteration_ok_def talkative_peer_def working_stdout_def)
  have l: "lost (fst (root accented_peer ascii_stdout 5)) = [[CHR 0xE9]]"
    by (simp add: root_def accented_peer_def ascii_stdout_def eval_nat_numeral)
  have "stdout (fst (root talkative_peer working_stdout 5))
     = [''Hello!'', ''ping'', ''Hello!'', ''pong'', ''Hello!'']
   \<and> ok_sends (fst (root talkative_peer working_stdout 5)) = [''Hello!'', ''Hello!'', ''Hello!'']
   \<and> delivered (fst (root talkative_peer working_stdout 5)) = [''ping'', ''pong'']
   \<and> lost (fst (root talkative_peer working_stdout 5)) = []"
    by (simp add: root_def talkative_peer_def working_stdout_def eval_nat_numeral)
  with h l C8_one_print_per_success [of talkative_peer working_stdout 4 1]
  show ?thesis
    by blast
qed



text \<open>
  The same peer, watched for two iterations with two standard outputs: one takes the
  peer's text, the other cannot encode it. The lines written differ, and so do the calls
  on the connection.
\<close>

theorem C10_counterexample:
  "root accented_peer ascii_stdout 2 \<noteq> root accented_peer working_stdout 2
   \<and> stdout (fst (root accented_peer ascii_stdout 2))
       \<noteq> stdout (fst (root accented_peer working_stdout 2))
   \<and> wire_ops (fst (root accented_peer ascii_stdout 2))
       \<noteq> wire_ops (fst (root accented_peer working_stdout 2))"
  by (simp add: root_def accented_peer_def ascii_stdout_def working_stdout_def eval_nat_numeral)

text \<open>
  C10, as amended. Two sessions in which \<open>accept\<close>, the first \<open>n\<close> sends of the greeting,
  the first \<open>n\<close> receives and the first \<open>2 * n\<close> prints have the same outcomes give the same
  run for \<open>n\<close> iterations: the same events in the same order and the same ending. Two
  sessions give the same run exactly when every call the handler reaches gets the same
  reply in both.
\<close>

theorem C10_deterministic:
  "(accept ws1 = accept ws2
    \<and> (\<forall>k<n. send_text ws1 k ''Hello!'' = send_text ws2 k ''Hello!''
              \<and> receive_text ws1 k = receive_text ws2 k)
    \<and> (\<forall>j<2 * n. \<forall>s. out1 j s = out2 j s)
    \<longrightarrow> root ws1 out1 n = root ws2 out2 n)
   \<and> (root ws1 out1 n = root ws2 out2 n) = same_session ws1 out1 ws2 out2 n"
proof -
  have suff: "root ws1 out1 n = root ws2 out2 n"
    if a: "accept ws1 = accept ws2"
      and w: "\<forall>k<n. send_text ws1 k ''Hello!'' = send_text ws2 k ''Hello!''
              \<and> receive_text ws1 k = receive_text ws2 k"
      and p: "\<forall>j<2 * n. \<forall>s. out1 j s = out2 j s"
  proof -
    have "\<forall>j<n. send_text ws1 (0 + j) ''Hello!'' = send_text ws2 (0 + j) ''Hello!''
          \<and> receive_text ws1 (0 + j) = receive_text ws2 (0 + j)
          \<and> (\<forall>s. out1 (2 * (0 + j)) s = out2 (2 * (0 + j)) s)
          \<and> (\<forall>s. out1 (2 * (0 + j) + 1) s = out2 (2 * (0 + j) + 1) s)"
    proof (intro allI impI)
      fix j
      assume j: "j < n"
      then have "2 * j < 2 * n" "2 * j + 1 < 2 * n"
        by simp_all
      with p have "\<forall>s. out1 (2 * j) s = out2 (2 * j) s" "\<forall>s. out1 (2 * j + 1) s = out2 (2 * j + 1) s"
        by blast+
      with w j show "send_text ws1 (0 + j) ''Hello!'' = send_text ws2 (0 + j) ''Hello!''
          \<and> receive_text ws1 (0 + j) = receive_text ws2 (0 + j)
          \<and> (\<forall>s. out1 (2 * (0 + j)) s = out2 (2 * (0 + j)) s)
          \<and> (\<forall>s. out1 (2 * (0 + j) + 1) s = out2 (2 * (0 + j) + 1) s)"
        by simp
    qed
    then have eq: "loop ws1 out1 n 0 = loop ws2 out2 n 0"
      by (rule loop_cong)
    show ?thesis
      unfolding root_def eq a by (rule refl)
  qed
  have exact: "(root ws1 out1 n = root ws2 out2 n) = same_session ws1 out1 ws2 out2 n"
    using loop_same [of ws1 out1 n 0 ws2 out2]
    by (cases "accept ws1"; cases "accept ws2")
       (auto simp: root_def same_session_def prod_eq_iff case_prod_beta)
  from suff exact show ?thesis
    by blast
qed

theorem C10_deterministic_witness:
  "accept echo_peer = accept picky_peer
   \<and> send_text echo_peer 5 ''Bye'' \<noteq> send_text picky_peer 5 ''Bye''
   \<and> receive_text echo_peer 2 \<noteq> receive_text picky_peer 2
   \<and> working_stdout 4 ''Hello!'' \<noteq> flaky_stdout 4 ''Hello!''
   \<and> root echo_peer working_stdout 2 = root picky_peer flaky_stdout 2
   \<and> same_session echo_peer working_stdout picky_peer flaky_stdout 2
   \<and> \<not> same_session echo_peer working_stdout picky_peer flaky_stdout 3"
proof -
  have h1: "accept echo_peer = accept picky_peer"
    by (simp add: echo_peer_def picky_peer_def)
  have h2: "\<forall>k<2. send_text echo_peer k ''Hello!'' = send_text picky_peer k ''Hello!''
              \<and> receive_text echo_peer k = receive_text picky_peer k"
    by (simp add: echo_peer_def picky_peer_def)
  have h3: "\<forall>j<2 * 2. \<forall>s. working_stdout j s = flaky_stdout j s"
    by (simp add: working_stdout_def flaky_stdout_def)
  have d: "send_text echo_peer 5 ''Bye'' \<noteq> send_text picky_peer 5 ''Bye''"
    "receive_text echo_peer 2 \<noteq> receive_text picky_peer 2"
    "working_stdout 4 ''Hello!'' \<noteq> flaky_stdout 4 ''Hello!''"
    by (simp_all add: echo_peer_def picky_peer_def working_stdout_def flaky_stdout_def)
  have r: "root echo_peer working_stdout 3 \<noteq> root picky_peer flaky_stdout 3"
    by (simp add: root_def echo_peer_def picky_peer_def working_stdout_def flaky_stdout_def
        eval_nat_numeral)
  from C10_deterministic [of echo_peer picky_peer 2 working_stdout flaky_stdout] h1 h2 h3
  have "root echo_peer working_stdout 2 = root picky_peer flaky_stdout 2"
    "same_session echo_peer working_stdout picky_peer flaky_stdout 2"
    by blast+
  moreover from C10_deterministic [of echo_peer picky_peer 3 working_stdout flaky_stdout] r
  have "\<not> same_session echo_peer working_stdout picky_peer flaky_stdout 3"
    by blast
  ultimately show ?thesis
    using h1 d by blast
qed

end
